theory Spec2Isabelle
  imports Main
begin

section \<open>The transducer example (src/fp.js), embedded\<close>

text \<open>
  JavaScript numbers are modelled as unbounded integers: the repository only ever feeds its
  functions integer arrays, and integer arithmetic is exact in JavaScript below \<open>2^53\<close>.
  A function value is a HOL function. Where JavaScript would throw, the model returns
  \<open>Inl TypeError\<close>.
\<close>

datatype error = TypeError

subsection \<open>Element functions (fp.js lines 1-4)\<close>

text \<open>
  The remainder operator \<^verbatim>\<open>%\<close> of JavaScript truncates: the result has the sign of the
  dividend. The only divisor in the source is the literal \<open>2\<close>.
\<close>

definition js_rem :: "int \<Rightarrow> int \<Rightarrow> int" where
  "js_rem a b = sgn a * (\<bar>a\<bar> mod \<bar>b\<bar>)"

definition isEven :: "int \<Rightarrow> bool" where
  "isEven x = (js_rem x 2 = 0)"

definition add :: "int \<Rightarrow> int \<Rightarrow> int" where
  "add x y = x + y"

definition add1 :: "int \<Rightarrow> int" where
  "add1 x = x + 1"

definition multBy10 :: "int \<Rightarrow> int" where
  "multBy10 x = x * 10"

subsection \<open>The two composers (fp.js lines 6-14)\<close>

text \<open>
  \<^verbatim>\<open>Array.prototype.reduceRight\<close> called without an initial value: it throws a TypeError on
  the empty array; otherwise the accumulator starts as the last element and the callback
  \<open>cb accumulator current\<close> visits the remaining elements from right to left.
\<close>

definition reduceRight :: "('a \<Rightarrow> 'a \<Rightarrow> 'a) \<Rightarrow> 'a list \<Rightarrow> error + 'a" where
  "reduceRight cb xs =
     (case rev xs of [] \<Rightarrow> Inl TypeError | z # ys \<Rightarrow> Inr (foldl cb z ys))"

text \<open>
  \<^verbatim>\<open>const compose = (...fns) => fns.reduceRight((f, g) => (...args) => g(f(...args)));\<close>
  The functions of a pipeline all map reducers to reducers, so the list is homogeneous.
\<close>

definition compose :: "('a \<Rightarrow> 'a) list \<Rightarrow> error + ('a \<Rightarrow> 'a)" where
  "compose fns = reduceRight (\<lambda>f g. (\<lambda>args. g (f args))) fns"

text \<open>
  \<^verbatim>\<open>
  const composeFast = (...fns) => (...args) => {
    let result = fns[0](...args);
    for (let i = fns.length - 1; i > 1; i--) {
      result = fns[i](result);
    }
    return result;
  };
  \<close>
  The loop runs over the indices \<open>length fns - 1\<close> down to \<open>2\<close>, all within the array.
  With no function at all, \<^verbatim>\<open>fns[0]\<close> is \<^verbatim>\<open>undefined\<close> and calling it throws a
  TypeError, when the composed function is applied (building it never fails).
\<close>

fun composeFast_loop :: "('a \<Rightarrow> 'a) list \<Rightarrow> nat \<Rightarrow> 'a \<Rightarrow> 'a" where
  "composeFast_loop fns i result =
     (if 1 < i then composeFast_loop fns (i - 1) ((fns ! i) result) else result)"

declare composeFast_loop.simps [simp del]

definition composeFast :: "('a \<Rightarrow> 'a) list \<Rightarrow> 'a \<Rightarrow> error + 'a" where
  "composeFast fns args =
     (case fns of
        [] \<Rightarrow> Inl TypeError
      | f0 # _ \<Rightarrow> Inr (composeFast_loop fns (length fns - 1) (f0 args)))"

subsection \<open>The iterative fold (fp.js lines 50-55)\<close>

text \<open>
  \<^verbatim>\<open>
  const foldFast = (fn, initial) => (xs) => {
    for (let i = 0; i < xs.length; i++) {
      initial = fn(initial, xs[i]);
    }
    return initial;
  };
  \<close>
  The loop is a recursion on the cursor \<open>i\<close>; every read \<open>xs ! i\<close> is within the array.
\<close>

function foldFast_loop :: "('a \<Rightarrow> 'e \<Rightarrow> 'a) \<Rightarrow> 'e list \<Rightarrow> nat \<Rightarrow> 'a \<Rightarrow> 'a" where
  "foldFast_loop fn xs i initial =
     (if i < length xs then foldFast_loop fn xs (i + 1) (fn initial (xs ! i)) else initial)"
  by pat_completeness auto
termination
  by (relation "measure (\<lambda>(fn, xs, i, initial). length xs - i)") auto

declare foldFast_loop.simps [simp del]

definition foldFast :: "('a \<Rightarrow> 'e \<Rightarrow> 'a) \<Rightarrow> 'a \<Rightarrow> 'e list \<Rightarrow> 'a" where
  "foldFast fn initial xs = foldFast_loop fn xs 0 initial"

subsection \<open>The reducer transformers (fp.js lines 57-65)\<close>

text \<open>
  \<^verbatim>\<open>
  const rMap = (fn) => (reducer) => (acc, x) => reducer(acc, fn(x));
  const rFilter = (predicate) => (reducer) => (acc, x) => (predicate(x)
    ? reducer(acc, x)
    : acc);
  \<close>
\<close>

definition rMap :: "('e \<Rightarrow> 'y) \<Rightarrow> ('a \<Rightarrow> 'y \<Rightarrow> 'a) \<Rightarrow> ('a \<Rightarrow> 'e \<Rightarrow> 'a)" where
  "rMap fn reducer = (\<lambda>acc x. reducer acc (fn x))"

definition rFilter :: "('e \<Rightarrow> bool) \<Rightarrow> ('a \<Rightarrow> 'e \<Rightarrow> 'a) \<Rightarrow> ('a \<Rightarrow> 'e \<Rightarrow> 'a)" where
  "rFilter predicate reducer = (\<lambda>acc x. if predicate x then reducer acc x else acc)"

text \<open>\<^verbatim>\<open>concat\<close> pushes onto the accumulator array and returns it.\<close>

definition concat_js :: "'e list \<Rightarrow> 'e \<Rightarrow> 'e list" where
  "concat_js acc x = acc @ [x]"

subsection \<open>The allocating map and filter (fp.js lines 16 and 26-32)\<close>

text \<open>
  \<^verbatim>\<open>
  const map = (fn) => (xs) => xs.reduce((acc, x) => [...acc, fn(x)], []);
  const filter = (predicate) => (xs) => xs.reduce(
    (acc, x) => (predicate(x) ? [...acc, x] : acc), []);
  \<close>
  \<^verbatim>\<open>Array.prototype.reduce\<close> with an initial value is the left fold.
\<close>

definition map_js :: "('e \<Rightarrow> 'y) \<Rightarrow> 'e list \<Rightarrow> 'y list" where
  "map_js fn xs = foldl (\<lambda>acc x. acc @ [fn x]) [] xs"

definition filter_js :: "('e \<Rightarrow> bool) \<Rightarrow> 'e list \<Rightarrow> 'e list" where
  "filter_js predicate xs = foldl (\<lambda>acc x. if predicate x then acc @ [x] else acc) [] xs"

subsection \<open>Folding through a composed pipeline\<close>

text \<open>
  \<^verbatim>\<open>compose(t1, ..., tn)(r)\<close>: an exception thrown while composing propagates; otherwise the
  composed transformer is applied to the reducer.
\<close>

definition apply_composed :: "error + ('a \<Rightarrow> 'a) \<Rightarrow> 'a \<Rightarrow> error + 'a" where
  "apply_composed c r = (case c of Inl e \<Rightarrow> Inl e | Inr t \<Rightarrow> Inr (t r))"

text \<open>
  \<^verbatim>\<open>foldFast(composeFast(t1, ..., tn)(r), init)(xs)\<close> and the same with \<^verbatim>\<open>compose\<close>: the
  pipeline is composed onto the terminal reducer once, then drives one fold.
\<close>

definition fold_composeFast ::
  "(('a \<Rightarrow> 'e \<Rightarrow> 'a) \<Rightarrow> ('a \<Rightarrow> 'e \<Rightarrow> 'a)) list \<Rightarrow> ('a \<Rightarrow> 'e \<Rightarrow> 'a) \<Rightarrow> 'a \<Rightarrow> 'e list \<Rightarrow> error + 'a" where
  "fold_composeFast ts r init xs =
     (case composeFast ts r of Inl e \<Rightarrow> Inl e | Inr red \<Rightarrow> Inr (foldFast red init xs))"

definition fold_compose ::
  "(('a \<Rightarrow> 'e \<Rightarrow> 'a) \<Rightarrow> ('a \<Rightarrow> 'e \<Rightarrow> 'a)) list \<Rightarrow> ('a \<Rightarrow> 'e \<Rightarrow> 'a) \<Rightarrow> 'a \<Rightarrow> 'e list \<Rightarrow> error + 'a" where
  "fold_compose ts r init xs =
     (case apply_composed (compose ts) r of
        Inl e \<Rightarrow> Inl e
      | Inr red \<Rightarrow> Inr (foldFast red init xs))"

text \<open>
  The reference computation, in the specification's words: apply \<open>f\<close> to every element,
  discard the elements failing \<open>p\<close>, sum the remainder.
\<close>

definition fusion_reference :: "('e \<Rightarrow> int) \<Rightarrow> (int \<Rightarrow> bool) \<Rightarrow> 'e list \<Rightarrow> int" where
  "fusion_reference f p xs = sum_list (filter p (map f xs))"

subsection \<open>Callbacks with effects\<close>

text \<open>
  The callbacks handed to \<^verbatim>\<open>rMap\<close>, \<^verbatim>\<open>rFilter\<close> and \<^verbatim>\<open>foldFast\<close> are arbitrary JavaScript
  functions: they may change state and they may throw. To observe whether and in which
  order a callback is invoked, the same three source functions are read a second time with
  callbacks that are computations on a state \<open>'s\<close> returning either a thrown value
  (\<open>Inl\<close>) or a result (\<open>Inr\<close>). A thrown value propagates at once, as no source function
  catches anything.
\<close>

type_synonym ('s, 'x, 'r) eff = "'s \<Rightarrow> ('x + 'r) \<times> 's"

definition unit_eff :: "'r \<Rightarrow> ('s, 'x, 'r) eff" where
  "unit_eff v = (\<lambda>s. (Inr v, s))"

definition rMap_eff ::
  "('e \<Rightarrow> ('s, 'x, 'y) eff) \<Rightarrow> ('a \<Rightarrow> 'y \<Rightarrow> ('s, 'x, 'a) eff) \<Rightarrow> 'a \<Rightarrow> 'e \<Rightarrow> ('s, 'x, 'a) eff" where
  "rMap_eff fn reducer =
     (\<lambda>acc x s. case fn x s of
        (Inl e, s') \<Rightarrow> (Inl e, s')
      | (Inr y, s') \<Rightarrow> reducer acc y s')"

definition rFilter_eff ::
  "('e \<Rightarrow> ('s, 'x, bool) eff) \<Rightarrow> ('a \<Rightarrow> 'e \<Rightarrow> ('s, 'x, 'a) eff) \<Rightarrow> 'a \<Rightarrow> 'e \<Rightarrow> ('s, 'x, 'a) eff" where
  "rFilter_eff predicate reducer =
     (\<lambda>acc x s. case predicate x s of
        (Inl e, s') \<Rightarrow> (Inl e, s')
      | (Inr b, s') \<Rightarrow> if b then reducer acc x s' else (Inr acc, s'))"

function foldFast_eff_loop ::
  "('a \<Rightarrow> 'e \<Rightarrow> ('s, 'x, 'a) eff) \<Rightarrow> 'e list \<Rightarrow> nat \<Rightarrow> 'a \<Rightarrow> ('s, 'x, 'a) eff" where
  "foldFast_eff_loop fn xs i initial s =
     (if i < length xs
      then (case fn initial (xs ! i) s of
              (Inl e, s') \<Rightarrow> (Inl e, s')
            | (Inr a, s') \<Rightarrow> foldFast_eff_loop fn xs (i + 1) a s')
      else (Inr initial, s))"
  by pat_completeness auto
termination
  by (relation "measure (\<lambda>(fn, xs, i, initial, s). length xs - i)") auto

declare foldFast_eff_loop.simps [simp del]

definition foldFast_eff ::
  "('a \<Rightarrow> 'e \<Rightarrow> ('s, 'x, 'a) eff) \<Rightarrow> 'a \<Rightarrow> 'e list \<Rightarrow> ('s, 'x, 'a) eff" where
  "foldFast_eff fn initial xs = foldFast_eff_loop fn xs 0 initial"

text \<open>
  Callbacks that record their invocations: the state is the trace of calls made so far,
  each with the element it received.
\<close>

datatype ('e, 'y) call = Fn 'e | Reducer 'y

definition traced_fn :: "('e \<Rightarrow> 'r) \<Rightarrow> 'e \<Rightarrow> (('e, 'y) call list, 'x, 'r) eff" where
  "traced_fn f x = (\<lambda>tr. (Inr (f x), tr @ [Fn x]))"

definition traced_reducer ::
  "('a \<Rightarrow> 'y \<Rightarrow> 'a) \<Rightarrow> 'a \<Rightarrow> 'y \<Rightarrow> (('e, 'y) call list, 'x, 'a) eff" where
  "traced_reducer r acc y = (\<lambda>tr. (Inr (r acc y), tr @ [Reducer y]))"

text \<open>
  \<^verbatim>\<open>throw\<close>, and a caller-supplied predicate that raises on every element, such as
  \<^verbatim>\<open>(x) => { throw new TypeError(); }\<close>.
\<close>

definition throw_eff :: "'x \<Rightarrow> ('s, 'x, 'r) eff" where
  "throw_eff e = (\<lambda>s. (Inl e, s))"

definition throwing_predicate :: "'e \<Rightarrow> ('s, error, bool) eff" where
  "throwing_predicate x = throw_eff TypeError"

section \<open>Properties\<close>

subsection \<open>The loops as list recursions\<close>

lemma foldFast_loop_drop: "foldFast_loop fn xs i a = foldl fn a (drop i xs)"
proof (induction fn xs i a rule: foldFast_loop.induct)
  case (1 fn xs i a)
  show ?case
  proof (cases "i < length xs")
    case True
    then have "drop i xs = xs ! i # drop (Suc i) xs"
      by (simp add: Cons_nth_drop_Suc)
    with True "1" show ?thesis
      by (simp add: foldFast_loop.simps [of fn xs i a])
  next
    case False
    then show ?thesis
      by (simp add: foldFast_loop.simps [of fn xs i a])
  qed
qed

lemma foldFast_foldl: "foldFast fn initial xs = foldl fn initial xs"
  by (simp add: foldFast_def foldFast_loop_drop)

subsection \<open>Element functions and the allocating stages\<close>

lemma isEven_iff: "isEven x \<longleftrightarrow> even x"
  by (auto simp: isEven_def js_rem_def sgn_if abs_if split: if_splits)

lemma map_js_map: "map_js fn xs = map fn xs"
proof -
  have "foldl (\<lambda>acc x. acc @ [fn x]) acc xs = acc @ map fn xs" for acc
    by (induction xs arbitrary: acc) simp_all
  then show ?thesis by (simp add: map_js_def)
qed

lemma filter_js_filter: "filter_js p xs = filter p xs"
proof -
  have "foldl (\<lambda>acc x. if p x then acc @ [x] else acc) acc xs = acc @ filter p xs" for acc
    by (induction xs arbitrary: acc) simp_all
  then show ?thesis by (simp add: filter_js_def)
qed

subsection \<open>What the two composers compute\<close>

text \<open>
  \<open>compose\<close> on a non-empty list \<open>[t1, ..., tn]\<close> is the function taking \<open>r\<close> to
  \<open>t1 (t2 (... (tn r)))\<close>.
\<close>

lemma foldl_compose_cb:
  "foldl (\<lambda>f g. (\<lambda>args. g (f args))) z ys = (\<lambda>r. foldr (\<lambda>t y. t y) (rev ys) (z r))"
  by (induction ys arbitrary: z) simp_all

lemma compose_order:
  "fns \<noteq> [] \<Longrightarrow> compose fns = Inr (\<lambda>r. foldr (\<lambda>t y. t y) fns r)"
proof -
  assume "fns \<noteq> []"
  then obtain z ys where r: "rev fns = z # ys"
    by (cases "rev fns") simp_all
  then have fns: "fns = rev ys @ [z]"
    by (metis rev_rev_ident rev.simps(2))
  show ?thesis
    by (simp add: compose_def reduceRight_def r foldl_compose_cb fns fun_eq_iff)
qed

text \<open>
  The loop of \<open>composeFast\<close>, started at index \<open>i\<close>, applies the functions at the indices
  \<open>i\<close> down to \<open>2\<close>: the one at index \<open>1\<close> is never reached.
\<close>

lemma composeFast_loop_take:
  "i < length fns \<Longrightarrow>
   composeFast_loop fns i res = foldr (\<lambda>h y. h y) (take (i - 1) (drop 2 fns)) res"
proof (induction fns i res rule: composeFast_loop.induct)
  case (1 fns i res)
  show ?case
  proof (cases "1 < i")
    case True
    with "1.prems" have n: "i - 2 < length (drop 2 fns)" by simp
    from True have "take (i - 1) (drop 2 fns) = take (Suc (i - 2)) (drop 2 fns)"
      by (simp add: numeral_2_eq_2 Suc_diff_Suc)
    also from n have "\<dots> = take (i - 2) (drop 2 fns) @ [drop 2 fns ! (i - 2)]"
      by (rule take_Suc_conv_app_nth)
    also from True "1.prems" have "drop 2 fns ! (i - 2) = fns ! i"
    proof -
      from True have "2 + (i - 2) = i" by arith
      with "1.prems" show ?thesis by (simp add: nth_drop)
    qed
    finally have t: "take (i - 1) (drop 2 fns) = take (i - 2) (drop 2 fns) @ [fns ! i]" .
    have step: "composeFast_loop fns i res = composeFast_loop fns (i - 1) ((fns ! i) res)"
      using True by (subst composeFast_loop.simps) simp
    from True "1.prems" have "composeFast_loop fns (i - 1) ((fns ! i) res)
        = foldr (\<lambda>h y. h y) (take (i - 1 - 1) (drop 2 fns)) ((fns ! i) res)"
      by (intro "1.IH") simp_all
    also have "i - 1 - 1 = i - 2" by simp
    finally have ih: "composeFast_loop fns (i - 1) ((fns ! i) res)
        = foldr (\<lambda>h y. h y) (take (i - 2) (drop 2 fns)) ((fns ! i) res)" .
    have "foldr (\<lambda>h y. h y) (take (i - 1) (drop 2 fns)) res
        = foldr (\<lambda>h y. h y) (take (i - 2) (drop 2 fns)) ((fns ! i) res)"
      by (simp only: t foldr_append) simp
    with step ih show ?thesis by simp
  next
    case False
    then show ?thesis
      by (simp add: composeFast_loop.simps [of fns i res])
  qed
qed

lemma composeFast_general:
  "composeFast (f0 # f1 # rest) x = Inr (foldr (\<lambda>h y. h y) rest (f0 x))"
  by (simp add: composeFast_def composeFast_loop_take)

lemma composeFast_single: "composeFast [f] x = Inr (f x)"
  by (simp add: composeFast_def composeFast_loop.simps)

lemma composeFast_empty: "composeFast [] x = Inl TypeError"
  by (simp add: composeFast_def)


subsection \<open>Folding with effectful callbacks\<close>

text \<open>
  A reducer that never throws, computes \<open>g\<close> and changes the state by \<open>upd\<close> makes the
  fold compute the left fold of \<open>g\<close> and apply \<open>upd\<close> element by element, in order.
\<close>

lemma foldFast_eff_loop_upd:
  assumes "\<And>acc x s. re acc x s = (Inr (g acc x), upd x s)"
  shows "foldFast_eff_loop re xs i acc s
       = (Inr (foldl g acc (drop i xs)), foldl (\<lambda>s x. upd x s) s (drop i xs))"
  using assms
proof (induction re xs i acc s rule: foldFast_eff_loop.induct)
  case (1 fn xs i initial s)
  note fn = "1.prems"
  show ?case
  proof (cases "i < length xs")
    case True
    then have d: "drop i xs = xs ! i # drop (Suc i) xs"
      by (simp add: Cons_nth_drop_Suc)
    have step: "foldFast_eff_loop fn xs i initial s
        = foldFast_eff_loop fn xs (i + 1) (g initial (xs ! i)) (upd (xs ! i) s)"
      using True by (subst foldFast_eff_loop.simps) (simp add: fn)
    have "foldFast_eff_loop fn xs (i + 1) (g initial (xs ! i)) (upd (xs ! i) s)
        = (Inr (foldl g (g initial (xs ! i)) (drop (i + 1) xs)),
           foldl (\<lambda>s x. upd x s) (upd (xs ! i) s) (drop (i + 1) xs))"
      by (rule "1.IH" [OF True _ refl]) (simp_all add: fn)
    then show ?thesis
      by (simp only: step d) simp
  next
    case False
    then show ?thesis
      by (simp add: foldFast_eff_loop.simps [of fn xs i initial s])
  qed
qed

lemma foldl_append_concat:
  "foldl (\<lambda>tr x. tr @ ev x) tr xs = tr @ concat (map ev xs)"
  by (induction xs arbitrary: tr) simp_all

lemma foldFast_eff_emit:
  assumes "\<And>acc x tr. re acc x tr = (Inr (g acc x), tr @ ev x)"
  shows "foldFast_eff re init xs tr = (Inr (foldFast g init xs), tr @ concat (map ev xs))"
  using foldFast_eff_loop_upd [of re g "\<lambda>x tr. tr @ ev x" xs 0 init tr, OF assms]
  by (simp add: foldFast_eff_def foldFast_foldl foldl_append_concat)

lemma foldFast_eff_pure:
  "foldFast_eff (\<lambda>a x. unit_eff (r a x)) init xs = unit_eff (foldFast r init xs)"
proof
  fix s
  have "foldFast_eff_loop (\<lambda>a x. unit_eff (r a x)) xs 0 init s
      = (Inr (foldl r init (drop 0 xs)), foldl (\<lambda>s x. s) s (drop 0 xs))"
    by (rule foldFast_eff_loop_upd) (simp add: unit_eff_def)
  moreover have "foldl (\<lambda>s x. s) s xs = s"
    by (induction xs) simp_all
  ultimately show "foldFast_eff (\<lambda>a x. unit_eff (r a x)) init xs s = unit_eff (foldFast r init xs) s"
    by (simp add: foldFast_eff_def foldFast_foldl unit_eff_def)
qed

text \<open>On callbacks without effects the second reading is the first one.\<close>

lemma rMap_eff_pure:
  "rMap_eff (\<lambda>x. unit_eff (f x)) (\<lambda>a y. unit_eff (r a y)) acc x = unit_eff (rMap f r acc x)"
  by (simp add: rMap_eff_def unit_eff_def rMap_def)

lemma rFilter_eff_pure:
  "rFilter_eff (\<lambda>x. unit_eff (p x)) (\<lambda>a y. unit_eff (r a y)) acc x = unit_eff (rFilter p r acc x)"
  by (simp add: rFilter_eff_def unit_eff_def rFilter_def fun_eq_iff)

lemma rMap_eff_traced:
  "rMap_eff (traced_fn f) (traced_reducer r) acc x tr
     = (Inr (rMap f r acc x), tr @ [Fn x, Reducer (f x)])"
  by (simp add: rMap_eff_def traced_fn_def traced_reducer_def rMap_def)

lemma rFilter_eff_traced:
  "rFilter_eff (traced_fn p) (traced_reducer r) acc x tr
     = (Inr (rFilter p r acc x), tr @ (if p x then [Fn x, Reducer x] else [Fn x]))"
  by (simp add: rFilter_eff_def traced_fn_def traced_reducer_def rFilter_def)

subsection \<open>The fold and the two transformers\<close>

text \<open>
  Claim C9 (fold traversal) fails in its last clause, that with any pipeline and initial
  accumulator \<open>0\<close> the result on the empty sequence is \<open>0\<close>: with the empty pipeline,
  composed onto \<open>add\<close>, there is no result, with either composer.
\<close>
theorem empty_pipeline_fold_counterexample:
  "fold_composeFast [] add 0 ([] :: int list) \<noteq> Inr 0
   \<and> fold_compose [] add 0 ([] :: int list) \<noteq> Inr 0"
  by (simp add: fold_composeFast_def fold_compose_def apply_composed_def compose_def
      reduceRight_def composeFast_def)

text \<open>
  Claim C9, amended. For every reducer \<open>fn\<close>, initial accumulator \<open>init\<close> and sequence
  \<open>xs\<close>, \<open>foldFast\<close> returns the left fold of \<open>fn\<close> over \<open>xs\<close> seeded with \<open>init\<close>; on
  the empty sequence it returns \<open>init\<close> unchanged; a reducer that records its invocations
  is called once per element, on the elements of \<open>xs\<close> in left-to-right order. With any
  non-empty pipeline, any terminal reducer and any initial accumulator (so also \<open>0\<close>), the
  fold of the empty sequence through the composed reducer returns the initial
  accumulator. With the empty pipeline composing throws a TypeError and nothing is folded.
\<close>
theorem foldFast_traversal:
  "foldFast fn init xs = foldl fn init xs
   \<and> foldFast fn init [] = init
   \<and> foldFast_eff (traced_reducer fn) init xs tr = (Inr (foldl fn init xs), tr @ map Reducer xs)
   \<and> (ts \<noteq> [] \<longrightarrow> fold_composeFast ts r a [] = Inr a \<and> fold_compose ts r a [] = Inr a)
   \<and> fold_composeFast [] r a ys = Inl TypeError
   \<and> fold_compose [] r a ys = Inl TypeError"
proof -
  have "foldFast_eff (traced_reducer fn) init xs tr
      = (Inr (foldFast fn init xs), tr @ concat (map (\<lambda>x. [Reducer x]) xs))"
    by (rule foldFast_eff_emit) (simp add: traced_reducer_def)
  moreover have "concat (map (\<lambda>x. [Reducer x]) xs) = map Reducer xs"
    by (induction xs) simp_all
  ultimately have fold: "foldFast_eff (traced_reducer fn) init xs tr
      = (Inr (foldl fn init xs), tr @ map Reducer xs)"
    by (simp add: foldFast_foldl)
  have fast: "fold_composeFast ts r a [] = Inr a" if "ts \<noteq> []"
  proof -
    from that obtain t ts' where "ts = t # ts'"
      by (cases ts) simp_all
    then show ?thesis
      by (simp add: fold_composeFast_def composeFast_def foldFast_foldl)
  qed
  have slow: "fold_compose ts r a [] = Inr a" if "ts \<noteq> []"
    using that
    by (simp add: fold_compose_def apply_composed_def compose_order foldFast_foldl)
  have empty: "fold_composeFast [] r a ys = Inl TypeError" "fold_compose [] r a ys = Inl TypeError"
    by (simp_all add: fold_composeFast_def fold_compose_def apply_composed_def compose_def
        reduceRight_def composeFast_def)
  from fold fast slow empty show ?thesis
    by (simp add: foldFast_foldl)
qed

theorem foldFast_traversal_witness:
  "[rMap multBy10, rFilter isEven] \<noteq> []
   \<and> fold_composeFast [rMap multBy10, rFilter isEven] add 0 [] = Inr 0
   \<and> fold_compose [rMap multBy10, rFilter isEven] add 0 [] = Inr 0"
proof -
  have h: "[rMap multBy10, rFilter isEven] \<noteq> []"
    by simp
  then have "fold_composeFast [rMap multBy10, rFilter isEven] add 0 [] = Inr 0
      \<and> fold_compose [rMap multBy10, rFilter isEven] add 0 [] = Inr 0"
    by (rule foldFast_traversal
        [THEN conjunct2, THEN conjunct2, THEN conjunct2, THEN conjunct1, THEN mp])
  with h show ?thesis
    by simp
qed

text \<open>
  Claim C5 (filter contract and short-circuit). \<open>rFilter p r acc x\<close> is \<open>r acc x\<close> when
  \<open>p x\<close> holds and \<open>acc\<close> otherwise. When \<open>p x\<close> is false, the result and the state are
  the same for every downstream reducer, whatever its effects: it is not invoked. When
  \<open>p x\<close> is true, the downstream reducer is run on \<open>acc\<close> and \<open>x\<close>. With recording
  callbacks the trace holds a \<open>Reducer\<close> call exactly when \<open>p x\<close> is true.
\<close>
theorem rFilter_contract:
  "rFilter p r acc x = (if p x then r acc x else acc)
   \<and> (\<not> p x \<longrightarrow> rFilter_eff (\<lambda>x. unit_eff (p x)) re acc x s = (Inr acc, s))
   \<and> (p x \<longrightarrow> rFilter_eff (\<lambda>x. unit_eff (p x)) re acc x s = re acc x s)
   \<and> rFilter_eff (traced_fn p) (traced_reducer r) acc x tr
       = (if p x then (Inr (r acc x), tr @ [Fn x, Reducer x]) else (Inr acc, tr @ [Fn x]))"
  by (simp add: rFilter_def rFilter_eff_def unit_eff_def traced_fn_def traced_reducer_def)

theorem rFilter_contract_witness:
  "\<not> isEven 3
   \<and> rFilter_eff (\<lambda>x. unit_eff (isEven x)) (traced_reducer add) 5 3 ([] :: (int, int) call list)
       = (Inr 5 :: error + int, [])
   \<and> isEven 4
   \<and> rFilter_eff (\<lambda>x. unit_eff (isEven x)) (traced_reducer add) 5 4 ([] :: (int, int) call list)
       = (Inr 9 :: error + int, [Reducer 4])"
proof -
  have odd3: "\<not> isEven 3" and even4: "isEven 4"
    by (simp_all add: isEven_iff)
  have "rFilter_eff (\<lambda>x. unit_eff (isEven x)) (traced_reducer add) 5 3 ([] :: (int, int) call list)
      = (Inr 5 :: error + int, [])"
    using odd3 by (rule rFilter_contract [THEN conjunct2, THEN conjunct1, THEN mp])
  moreover
  have "rFilter_eff (\<lambda>x. unit_eff (isEven x)) (traced_reducer add) 5 4 ([] :: (int, int) call list)
      = (traced_reducer add 5 4 [] :: (error + int) \<times> (int, int) call list)"
    using even4
    by (rule rFilter_contract [THEN conjunct2, THEN conjunct2, THEN conjunct1, THEN mp])
  ultimately show ?thesis
    using odd3 even4 by (simp add: traced_reducer_def add_def)
qed

text \<open>
  Claim C6 (map contract) fails in its totality clause, that the mapped reducer never
  fails provided \<open>f\<close> is total: the recording transform \<open>traced_fn add1\<close> returns normally
  on the element \<open>1\<close>, and over a downstream reducer that throws (a filter stage whose
  predicate raises) the mapped reducer throws.
\<close>
theorem rMap_total_counterexample:
  "traced_fn add1 1 ([] :: (int, int) call list) = (Inr 2 :: error + int, [Fn 1])
   \<and> rMap_eff (traced_fn add1) (rFilter_eff throwing_predicate (traced_reducer add)) 0 1
         ([] :: (int, int) call list)
       = (Inl TypeError, [Fn 1])"
  by (simp add: rMap_eff_def rFilter_eff_def traced_fn_def throwing_predicate_def
      throw_eff_def add1_def)

text \<open>
  Claim C6, amended. \<open>rMap f r acc x\<close> is \<open>r acc (f x)\<close>. With recording callbacks, one
  step calls \<open>f\<close> once on \<open>x\<close> and then the downstream reducer once on \<open>f x\<close>; a whole fold
  calls \<open>f\<close> once per element, in the order of the sequence, each call followed by the
  downstream call on its result. Where \<open>f\<close> returns normally on \<open>x\<close>, the mapped reducer
  does exactly what the downstream reducer does on \<open>acc\<close> and \<open>f x\<close>, its failure
  included; so the mapped reducer returns normally provided \<open>f\<close> and the downstream
  reducer both do, and it adds no failure of its own.
\<close>
theorem rMap_contract:
  "rMap f r acc x = r acc (f x)
   \<and> rMap_eff (traced_fn f) (traced_reducer r) acc x tr
       = (Inr (r acc (f x)), tr @ [Fn x, Reducer (f x)])
   \<and> foldFast_eff (rMap_eff (traced_fn f) (traced_reducer r)) init xs tr
       = (Inr (foldFast (rMap f r) init xs), tr @ concat (map (\<lambda>x. [Fn x, Reducer (f x)]) xs))
   \<and> (fe x s = (Inr y, s') \<longrightarrow> rMap_eff fe re acc x s = re acc y s')
   \<and> (fe x s = (Inr y, s') \<and> re acc y s' = (Inr acc', s'') \<longrightarrow>
        rMap_eff fe re acc x s = (Inr acc', s''))"
proof -
  have "foldFast_eff (rMap_eff (traced_fn f) (traced_reducer r)) init xs tr
       = (Inr (foldFast (rMap f r) init xs), tr @ concat (map (\<lambda>x. [Fn x, Reducer (f x)]) xs))"
    by (rule foldFast_eff_emit) (simp add: rMap_eff_traced)
  then show ?thesis
    by (simp add: rMap_def rMap_eff_def traced_fn_def traced_reducer_def)
qed

theorem rMap_contract_witness:
  "traced_fn add1 1 ([] :: (int, int) call list) = (Inr 2 :: error + int, [Fn 1])
   \<and> traced_reducer add 0 2 [Fn 1 :: (int, int) call]
       = (Inr 2 :: error + int, [Fn 1, Reducer 2])
   \<and> rMap_eff (traced_fn add1) (traced_reducer add) 0 1 ([] :: (int, int) call list)
       = (Inr 2 :: error + int, [Fn 1, Reducer 2])
   \<and> rMap_eff (traced_fn add1) (rFilter_eff throwing_predicate (traced_reducer add)) 0 1
         ([] :: (int, int) call list)
       = rFilter_eff throwing_predicate (traced_reducer add) 0 2 [Fn 1]"
proof -
  have h: "traced_fn add1 1 ([] :: (int, int) call list) = (Inr 2 :: error + int, [Fn 1])"
    by (simp add: traced_fn_def add1_def)
  have k: "traced_reducer add 0 2 [Fn 1 :: (int, int) call]
      = (Inr 2 :: error + int, [Fn 1, Reducer 2])"
    by (simp add: traced_reducer_def add_def)
  from h k have hk: "traced_fn add1 1 ([] :: (int, int) call list) = (Inr 2 :: error + int, [Fn 1])
      \<and> traced_reducer add 0 2 [Fn 1 :: (int, int) call]
        = (Inr 2 :: error + int, [Fn 1, Reducer 2])"
    by simp
  have a: "rMap_eff (traced_fn add1) (traced_reducer add) 0 1 ([] :: (int, int) call list)
      = (Inr 2 :: error + int, [Fn 1, Reducer 2])"
    using hk
    by (rule rMap_contract
        [THEN conjunct2, THEN conjunct2, THEN conjunct2, THEN conjunct2, THEN mp])
  have b: "rMap_eff (traced_fn add1) (rFilter_eff throwing_predicate (traced_reducer add)) 0 1
         ([] :: (int, int) call list)
       = rFilter_eff throwing_predicate (traced_reducer add) 0 2 [Fn 1]"
    using h
    by (rule rMap_contract
        [THEN conjunct2, THEN conjunct2, THEN conjunct2, THEN conjunct1, THEN mp])
  from h k a b show ?thesis
    by simp
qed

subsection \<open>Pipelines\<close>

text \<open>
  Folding through \<open>rMap\<close> or \<open>rFilter\<close> is folding over the mapped or filtered list, so
  with \<open>compose\<close> the single fold through \<open>[rMap f, rFilter p]\<close> onto the sum reducer is
  the reference computation, which is also the chain of the allocating stages of fp.js.
  With \<open>composeFast\<close> a pipeline of two stages folds through its first stage only.
\<close>

lemma foldl_add_sum_list: "foldl add a ys = a + sum_list ys"
  by (induction ys arbitrary: a) (simp_all add: add_def)

lemma foldl_rMap: "foldl (rMap f r) a xs = foldl r a (map f xs)"
  by (induction xs arbitrary: a) (simp_all add: rMap_def)

lemma foldl_rFilter: "foldl (rFilter p r) a xs = foldl r a (filter p xs)"
  by (induction xs arbitrary: a) (simp_all add: rFilter_def)

lemma fold_compose_fusion:
  "fold_compose [rMap f, rFilter p] add 0 xs = Inr (fusion_reference f p xs)"
  by (simp add: fold_compose_def apply_composed_def compose_order foldFast_foldl
      foldl_rMap foldl_rFilter foldl_add_sum_list fusion_reference_def)

lemma fusion_reference_chain:
  "fusion_reference f p xs = foldFast add 0 (filter_js p (map_js f xs))"
  by (simp add: fusion_reference_def foldFast_foldl filter_js_filter map_js_map
      foldl_add_sum_list)

lemma fold_composeFast_drops_second:
  "fold_composeFast [t1, t2] r init xs = Inr (foldFast (t1 r) init xs)"
  by (simp add: fold_composeFast_def composeFast_general)


text \<open>
  Claim C2 (composer order), evaluated on \<open>composeFast\<close>: composing
  \<open>[rFilter isEven, rMap add1]\<close> onto \<open>add\<close> yields \<open>rFilter isEven add\<close>, not
  \<open>rFilter isEven (rMap add1 add)\<close>; at accumulator \<open>0\<close> and element \<open>2\<close> the first returns
  \<open>2\<close> and the second \<open>3\<close>.
\<close>
theorem composeFast_order_fails:
  "composeFast [rFilter isEven, rMap add1] add = Inr (rFilter isEven add)
   \<and> rFilter isEven add 0 2 = 2
   \<and> rFilter isEven (rMap add1 add) 0 2 = 3"
  by (simp add: composeFast_general rFilter_def rMap_def add1_def add_def isEven_iff)

text \<open>
  Claim C3 (what \<open>composeFast\<close> computes). \<open>composeFast [f, g] x\<close> is \<open>f x\<close>: \<open>g\<close> is not
  applied. In general \<open>composeFast [f0, f1, f2, ..., fn] y\<close> applies \<open>f0\<close>, then \<open>fn\<close>, ...,
  down to \<open>f2\<close>, and never \<open>f1\<close>. The pipeline of the benchmark,
  \<open>composeFast [rFilter isEven, rMap multBy10] concat\<close>, is \<open>rFilter isEven concat\<close>.
\<close>
theorem composeFast_skips_second:
  "composeFast [f, g] x = Inr (f x)
   \<and> composeFast (f0 # f1 # rest) y = Inr (foldr (\<lambda>h z. h z) rest (f0 y))
   \<and> composeFast [rFilter isEven, rMap multBy10] concat_js = Inr (rFilter isEven concat_js)"
  by (simp add: composeFast_general)

text \<open>
  Claim C7 (empty pipeline identity) fails: composing no transformer and applying the
  result to the reducer \<open>add\<close> does not give back \<open>add\<close>, with either composer.
\<close>
theorem empty_pipeline_counterexample:
  "apply_composed (compose []) add \<noteq> Inr add \<and> composeFast [] add \<noteq> Inr add"
  by (simp add: apply_composed_def compose_def reduceRight_def composeFast_def)

text \<open>
  Claim C7, amended. Composing the empty list of transformers throws a TypeError: in
  \<open>compose\<close> when the list is composed, in \<open>composeFast\<close> when the composed function is
  applied to a reducer. A pipeline of one transformer \<open>t\<close>, applied to \<open>r\<close>, is \<open>t r\<close>.
\<close>
theorem empty_pipeline_throws:
  "apply_composed (compose []) r = Inl TypeError
   \<and> composeFast [] r = Inl TypeError
   \<and> apply_composed (compose [t]) r = Inr (t r)
   \<and> composeFast [t] r = Inr (t r)"
  by (simp add: apply_composed_def compose_def reduceRight_def composeFast_def
      composeFast_loop.simps)

text \<open>
  Claim C8 (concrete scenario). On \<open>[1, 2, 3, 4, 5]\<close>, the pipeline of multiplying by ten
  and keeping the even numbers, composed onto the sum reducer and folded from \<open>0\<close>,
  returns \<open>150\<close>, with \<open>composeFast\<close> and with \<open>compose\<close>.
\<close>
theorem scenario_150:
  "fold_composeFast [rMap (\<lambda>x. x * 10), rFilter (\<lambda>x. js_rem x 2 = 0)] add 0 [1, 2, 3, 4, 5]
     = Inr 150
   \<and> fold_compose [rMap (\<lambda>x. x * 10), rFilter (\<lambda>x. js_rem x 2 = 0)] add 0 [1, 2, 3, 4, 5]
     = Inr 150"
  by (simp add: fold_composeFast_def composeFast_general fold_compose_def apply_composed_def
      compose_order foldFast_foldl rMap_def rFilter_def add_def js_rem_def)

text \<open>
  Claim C10 (order sensitivity). With \<open>f = multBy10\<close> and \<open>p = isEven\<close> on \<open>[1, 2, 3]\<close>,
  filtering before mapping sums to \<open>20\<close> and mapping before filtering sums to \<open>60\<close>: there
  are a sequence, a transform and a predicate for which the two pipeline orders give
  different results, with \<open>compose\<close> and with \<open>composeFast\<close>.
\<close>
theorem order_sensitivity:
  "fold_compose [rFilter isEven, rMap multBy10] add 0 [1, 2, 3] = Inr 20
   \<and> fold_compose [rMap multBy10, rFilter isEven] add 0 [1, 2, 3] = Inr 60
   \<and> (\<exists>xs f p. fold_compose [rFilter p, rMap f] add 0 xs
               \<noteq> fold_compose [rMap f, rFilter p] add 0 xs)
   \<and> (\<exists>xs f p. fold_composeFast [rFilter p, rMap f] add 0 xs
               \<noteq> fold_composeFast [rMap f, rFilter p] add 0 xs)"
proof -
  have a: "fold_compose [rFilter isEven, rMap multBy10] add 0 [1, 2, 3] = Inr 20"
    by (simp add: fold_compose_def apply_composed_def compose_order foldFast_foldl
        rMap_def rFilter_def add_def multBy10_def isEven_iff)
  have b: "fold_compose [rMap multBy10, rFilter isEven] add 0 [1, 2, 3] = Inr 60"
    by (simp add: fold_compose_def apply_composed_def compose_order foldFast_foldl
        rMap_def rFilter_def add_def multBy10_def isEven_iff)
  have c: "fold_composeFast [rFilter isEven, rMap multBy10] add 0 [1, 2, 3] = Inr 2"
    by (simp add: fold_composeFast_def composeFast_general foldFast_foldl
        rFilter_def add_def isEven_iff)
  have d: "fold_composeFast [rMap multBy10, rFilter isEven] add 0 [1, 2, 3] = Inr 60"
    by (simp add: fold_composeFast_def composeFast_general foldFast_foldl
        rMap_def add_def multBy10_def)
  have "fold_compose [rFilter isEven, rMap multBy10] add 0 [1, 2, 3]
      \<noteq> fold_compose [rMap multBy10, rFilter isEven] add 0 [1, 2, 3]"
    by (simp add: a b)
  moreover have "fold_composeFast [rFilter isEven, rMap multBy10] add 0 [1, 2, 3]
      \<noteq> fold_composeFast [rMap multBy10, rFilter isEven] add 0 [1, 2, 3]"
    by (simp add: c d)
  ultimately show ?thesis
    using a b by blast
qed

end
